theory Spec2Isabelle
  imports Complex_Main
begin

section \<open>The Yotpo reviews component (assets/yotpo-reviews.js)\<close>

text \<open>
  The component is a custom element with private fields, a renderer that maps the
  fields to markup, and handlers that mutate the fields and re-render or re-fetch.
  JavaScript numbers are modelled as \<open>int\<close> where the code uses them as counters, page
  numbers and identifiers, and as \<open>real\<close> where it divides or compares fractions (the
  average score, the histogram percentage): the model computes with the exact value
  where the source rounds to a double.
\<close>

subsection \<open>Star display: \<open>#renderStars\<close>\<close>

text \<open>
  The markup of \<open>#renderStars\<close> is three runs of the same SVG, marked filled, half and
  empty. The model keeps the sequence of marks. \<open>String.prototype.repeat\<close> raises a
  \<open>RangeError\<close> on a negative count; the count of empty stars is guarded by
  \<open>Math.max(0, _)\<close>, the count of filled stars is not.
\<close>

datatype star = Filled | Half | Empty

datatype js_exception = RangeError

definition renderStars :: "real \<Rightarrow> js_exception + star list" where
  "renderStars rating =
     (let fullStars = \<lfloor>rating\<rfloor>;
          hasHalf = (rating - of_int fullStars \<ge> 3 / 10 \<and> rating - of_int fullStars \<le> 7 / 10);
          emptyStars = 5 - fullStars - (if hasHalf then 1 else 0)
                         - (if rating - of_int fullStars > 7 / 10 then 1 else 0);
          extraFull = (if rating - of_int fullStars > 7 / 10 then 1 else 0)
      in if fullStars + extraFull < 0 then Inl RangeError
         else Inr (replicate (nat (fullStars + extraFull)) Filled
                   @ (if hasHalf then [Half] else [])
                   @ replicate (nat (max 0 (emptyStars - extraFull))) Empty))"

subsection \<open>Pagination window: \<open>#generatePageNumbers\<close>\<close>

text \<open>
  The result is an array of page numbers and the string \<open>'...'\<close>. For at most seven
  pages, \<open>Array.from({ length: total }, (_, i) => i + 1)\<close> maps the indices
  \<open>0 .. total - 1\<close>; a length below zero gives the empty array.
\<close>

datatype page_entry = PageNum int | Ellipsis

definition generatePageNumbers :: "int \<Rightarrow> int \<Rightarrow> page_entry list" where
  "generatePageNumbers current total' =
     (if total' \<le> 7 then map (\<lambda>i. PageNum (int i + 1)) [0..<nat total']
      else if current \<le> 4 then
        [PageNum 1, PageNum 2, PageNum 3, PageNum 4, PageNum 5, Ellipsis, PageNum total']
      else if current \<ge> total' - 3 then
        [PageNum 1, Ellipsis, PageNum (total' - 4), PageNum (total' - 3), PageNum (total' - 2),
         PageNum (total' - 1), PageNum total']
      else
        [PageNum 1, Ellipsis, PageNum (current - 1), PageNum current, PageNum (current + 1),
         Ellipsis, PageNum total'])"

text \<open>The page numbers of a window, in order, with the ellipses left out.\<close>

fun numeric_entries :: "page_entry list \<Rightarrow> int list" where
  "numeric_entries [] = []"
| "numeric_entries (PageNum n # es) = n # numeric_entries es"
| "numeric_entries (Ellipsis # es) = numeric_entries es"

subsection \<open>Rating summary and histogram: \<open>#renderHistogram\<close>\<close>

text \<open>
  \<open>YotpoBottomline\<close>. The star distribution is a JSON object keyed by the star as a
  string; it is an association list here, read with \<open>map_of\<close>, and \<open>None\<close> when the
  field is missing.
\<close>

record bottomline =
  total_review :: int
  average_score :: real
  star_distribution :: "(string \<times> int) list option"





subsection \<open>Data of the reviews API\<close>

text \<open>
  \<open>YotpoReview\<close>, \<open>YotpoPagination\<close> and \<open>YotpoResponse\<close>. A field the code reads with
  \<open>x || default\<close> or \<open>x?.y\<close> is an \<open>option\<close>, \<open>None\<close> standing for a missing (undefined)
  value. The optional \<open>response\<close> object is flattened into its three fields.
\<close>

record review =
  review_id :: int
  review_score :: int
  review_content :: string
  votes_up :: "int option"
  votes_down :: "int option"
  images_data :: "(string \<times> string) list option"

record pagination =
  pg_page :: int
  pg_per_page :: int
  pg_total :: int

record yotpo_response =
  response_status :: "int option"
  response_bottomline :: "bottomline option"
  response_reviews :: "review list option"
  response_pagination :: "pagination option"

record http_response =
  ok :: bool
  http_status :: int

subsection \<open>The platform: exceptions, promises, markup, storage, network\<close>

text \<open>
  A message shown to the user is a literal or one of the two template literals
  \<open>`HTTP ${response.status}`\<close> and \<open>`API error: ${data.status}`\<close>.
\<close>

datatype message = Text string | HTTP_status int | API_error int

text \<open>A thrown value, with what the \<open>catch\<close> clauses inspect.\<close>

record thrown =
  instanceof_Error :: bool
  error_name :: string
  error_message :: message

definition new_Error :: "message \<Rightarrow> thrown" where
  "new_Error m = \<lparr>instanceof_Error = True, error_name = ''Error'', error_message = m\<rparr>"

text \<open>
  The \<open>DOMException\<close> named \<open>AbortError\<close> with which the platform rejects the promises
  of an aborted request.
\<close>

definition AbortError :: thrown where
  "AbortError = \<lparr>instanceof_Error = True, error_name = ''AbortError'',
                  error_message = Text ''The operation was aborted.''\<rparr>"

datatype 'a settled = Resolved 'a | Rejected thrown

text \<open>
  The two \<open>await\<close> points of \<open>#fetchReviews\<close> at which an invocation is suspended.
\<close>

datatype await_point = AwaitFetch | AwaitJson

text \<open>
  \<open>innerHTML\<close> of the element: nothing yet, the error view of \<open>#renderError\<close>, or the
  main view of \<open>#render\<close>, of which the model keeps the two flags that select its
  sections (loading placeholder, form, content).
\<close>

datatype markup = NoMarkup | ErrorMarkup message | MainMarkup bool bool

text \<open>
  The entry \<open>yotpo-voted-reviews\<close> of local storage: a JSON array of review IDs, or
  content on which \<open>JSON.parse\<close> or \<open>new Set\<close> raises.
\<close>

datatype stored = NotAnArray | IdArray "int list"

datatype vote = Up | Down

record listing_url =
  url_app_key :: string
  url_product_id :: string
  q_per_page :: int
  q_page :: int
  q_sort :: "string option"
  q_direction :: "string option"
  q_star :: "int option"

record form_data =
  fd_score :: string
  fd_display_name :: string
  fd_email :: string
  fd_content :: string
  fd_title :: string

text \<open>
  A network call: the listing GET with the identifier of its abort signal, the vote
  POST (review ID, direction, app key) and the review POST (app key, product ID and the
  form's data).
\<close>

datatype request =
    ListingGet listing_url nat
  | VotePost int vote string
  | ReviewPost string string form_data

text \<open>Mutations of elements inside the rendered form.\<close>

datatype form_op =
    SetScoreInput int
  | ShowFormMessage string string
  | SubmitButton bool string

subsection \<open>The component\<close>

text \<open>
  The private fields of \<open>YotpoReviews\<close> keep their names. \<open>#votedReviews\<close> is a
  \<open>Set\<close>: a list without duplicates in insertion order. \<open>#abortController\<close> holds the
  identifier of the current controller. \<open>#perPage\<close> is initialised to 10 and never
  assigned: it is a constant. The remaining fields are the platform state the methods
  act on: the element's attributes, its markup and appended modals, the mutations made
  to form elements, the signals aborted so far, the next fresh controller, the
  suspended invocations of \<open>#fetchReviews\<close>, the suspended invocations of
  \<open>submitReview\<close> (each with whether it found the submit button), the timers still
  outstanding, the network calls issued, local storage, and the number of
  \<open>scrollIntoView\<close> calls.
\<close>

record component =
  abortController :: "nat option"
  bottomline :: "bottomline option"
  reviews :: "review list"
  pagination :: "pagination option"
  currentSort :: "string option"
  currentDirection :: "string option"
  currentStarFilter :: "int option"
  currentPage :: int
  isLoading :: bool
  showForm :: bool
  votedReviews :: "int list"
  attributes :: "(string \<times> string) list"
  innerHTML :: markup
  modals :: "string list"
  form_ops :: "form_op list"
  aborted :: "nat list"
  next_controller :: nat
  pending :: "(nat \<times> await_point) list"
  pending_submits :: "bool list"
  timers :: nat
  network :: "request list"
  localStorage_item :: "stored option"
  localStorage_throws :: bool
  scrolls :: nat

definition perPage :: int where
  "perPage = 10"

text \<open>The field initialisers, for given attributes and local storage.\<close>

definition initial :: "(string \<times> string) list \<Rightarrow> stored option \<Rightarrow> bool \<Rightarrow> component" where
  "initial attrs item throws =
     \<lparr>abortController = None, bottomline = None, reviews = [], pagination = None,
      currentSort = Some ''date'', currentDirection = Some ''desc'',
      currentStarFilter = None, currentPage = 1, isLoading = False, showForm = False,
      votedReviews = [], attributes = attrs, innerHTML = NoMarkup, modals = [],
      form_ops = [], aborted = [], next_controller = 0, pending = [],
      pending_submits = [], timers = 0, network = [], localStorage_item = item,
      localStorage_throws = throws, scrolls = 0\<rparr>"

text \<open>\<open>Set.prototype.has\<close>, \<open>Set.prototype.add\<close> and \<open>new Set(array)\<close>.\<close>

definition Set_has :: "int list \<Rightarrow> int \<Rightarrow> bool" where
  "Set_has xs x = (x \<in> set xs)"

definition Set_add :: "int list \<Rightarrow> int \<Rightarrow> int list" where
  "Set_add xs x = (if x \<in> set xs then xs else xs @ [x])"

definition new_Set :: "int list \<Rightarrow> int list" where
  "new_Set ys = foldl Set_add [] ys"

text \<open>The getters \<open>appKey\<close> and \<open>productId\<close>: \<open>getAttribute(name) || ''\<close>.\<close>

definition getAttribute :: "component \<Rightarrow> string \<Rightarrow> string option" where
  "getAttribute s name = map_of (attributes s) name"

definition appKey :: "component \<Rightarrow> string" where
  "appKey s = (case getAttribute s ''app-key'' of None \<Rightarrow> [] | Some v \<Rightarrow> v)"

definition productId :: "component \<Rightarrow> string" where
  "productId s = (case getAttribute s ''product-id'' of None \<Rightarrow> [] | Some v \<Rightarrow> v)"

text \<open>
  \<open>#render\<close> and \<open>#renderError\<close> assign \<open>innerHTML\<close>, which also removes a modal
  appended to the element.
\<close>

definition render :: "component \<Rightarrow> component" where
  "render s = s\<lparr>innerHTML := MainMarkup (isLoading s) (showForm s), modals := []\<rparr>"

definition renderError :: "message \<Rightarrow> component \<Rightarrow> component" where
  "renderError m s = s\<lparr>innerHTML := ErrorMarkup m, modals := []\<rparr>"

text \<open>
  The form, and with it the elements \<open>formRating\<close>, \<open>formScoreInput\<close>,
  \<open>formSubmitBtn\<close> and \<open>formMessage\<close>, is in the markup when \<open>#render\<close> ran with
  \<open>!isLoading && showForm\<close>.
\<close>

definition form_rendered :: "component \<Rightarrow> bool" where
  "form_rendered s = (innerHTML s = MainMarkup False True)"

subsection \<open>Local storage: \<open>#loadVotedReviews\<close>, \<open>#saveVotedReviews\<close>\<close>

text \<open>Both bodies are inside \<open>try { } catch { }\<close>: a storage that raises changes nothing.\<close>

definition loadVotedReviews :: "component \<Rightarrow> component" where
  "loadVotedReviews s =
     (if localStorage_throws s then s
      else case localStorage_item s of
             None \<Rightarrow> s
           | Some NotAnArray \<Rightarrow> s
           | Some (IdArray ids) \<Rightarrow> s\<lparr>votedReviews := new_Set ids\<rparr>)"

definition saveVotedReviews :: "component \<Rightarrow> component" where
  "saveVotedReviews s =
     (if localStorage_throws s then s
      else s\<lparr>localStorage_item := Some (IdArray (votedReviews s))\<rparr>)"

subsection \<open>Fetch controller: \<open>#buildApiUrl\<close>, \<open>#fetchReviews\<close>\<close>

definition buildApiUrl :: "component \<Rightarrow> listing_url" where
  "buildApiUrl s =
     \<lparr>url_app_key = appKey s, url_product_id = productId s, q_per_page = perPage,
      q_page = currentPage s, q_sort = currentSort s, q_direction = currentDirection s,
      q_star = currentStarFilter s\<rparr>"

text \<open>\<open>this.#abortController?.abort()\<close>: aborting an aborted signal does nothing.\<close>

definition abort_current :: "component \<Rightarrow> component" where
  "abort_current s =
     (case abortController s of
        None \<Rightarrow> s
      | Some c \<Rightarrow> (if c \<in> set (aborted s) then s else s\<lparr>aborted := c # aborted s\<rparr>))"

text \<open>
  \<open>#fetchReviews\<close> up to its first \<open>await\<close>: the guard on the two identifiers, the
  abort of the previous controller, a new controller, the loading view, and the call
  of \<open>fetch\<close> with the new signal, at which the invocation is suspended.
\<close>

definition fetchReviews :: "component \<Rightarrow> component" where
  "fetchReviews s =
     (if appKey s = [] \<or> productId s = [] then
        renderError (Text ''Missing app-key or product-id attribute'') s
      else
        let s1 = abort_current s;
            k = next_controller s1;
            s2 = s1\<lparr>abortController := Some k, next_controller := Suc k\<rparr>;
            s3 = render (s2\<lparr>isLoading := True\<rparr>)
        in s3\<lparr>network := network s3 @ [ListingGet (buildApiUrl s3) k],
               pending := pending s3 @ [(k, AwaitFetch)]\<rparr>)"

text \<open>The \<open>catch\<close> clause of \<open>#fetchReviews\<close>.\<close>

definition fetchReviews_catch :: "thrown \<Rightarrow> component \<Rightarrow> component" where
  "fetchReviews_catch error s =
     (if instanceof_Error error \<and> error_name error = ''AbortError'' then s
      else renderError
             (if instanceof_Error error then error_message error
              else Text ''Failed to load reviews'')
             (s\<lparr>isLoading := False\<rparr>))"

definition unsuspend :: "nat \<Rightarrow> component \<Rightarrow> component" where
  "unsuspend k s = s\<lparr>pending := filter (\<lambda>(i, _). i \<noteq> k) (pending s)\<rparr>"

text \<open>
  The invocation with signal \<open>k\<close> resumes after \<open>await fetch(...)\<close> with the settled
  promise: it throws on a response that is not OK and otherwise calls
  \<open>response.json()\<close> and is suspended again.
\<close>

definition fetchReviews_after_fetch ::
  "nat \<Rightarrow> http_response settled \<Rightarrow> component \<Rightarrow> component" where
  "fetchReviews_after_fetch k v s =
     (case v of
        Rejected error \<Rightarrow> fetchReviews_catch error (unsuspend k s)
      | Resolved response \<Rightarrow>
          if \<not> ok response then
            fetchReviews_catch (new_Error (HTTP_status (http_status response))) (unsuspend k s)
          else (unsuspend k s)\<lparr>pending := pending (unsuspend k s) @ [(k, AwaitJson)]\<rparr>)"

text \<open>The four assignments and the render that end the \<open>try\<close> block.\<close>

definition apply_response :: "yotpo_response \<Rightarrow> component \<Rightarrow> component" where
  "apply_response data s =
     render (s\<lparr>bottomline := response_bottomline data,
               reviews := (case response_reviews data of None \<Rightarrow> [] | Some rs \<Rightarrow> rs),
               pagination := response_pagination data,
               isLoading := False\<rparr>)"

text \<open>
  The invocation resumes after \<open>await response.json()\<close>: it throws on an embedded
  status other than 200 and otherwise replaces the three collections, clears the
  loading flag and renders.
\<close>

definition fetchReviews_after_json ::
  "nat \<Rightarrow> yotpo_response settled \<Rightarrow> component \<Rightarrow> component" where
  "fetchReviews_after_json k v s =
     (case v of
        Rejected error \<Rightarrow> fetchReviews_catch error (unsuspend k s)
      | Resolved data \<Rightarrow>
          (case response_status data of
             None \<Rightarrow> apply_response data (unsuspend k s)
           | Some status \<Rightarrow>
               if status \<noteq> 0 \<and> status \<noteq> 200 then
                 fetchReviews_catch (new_Error (API_error status)) (unsuspend k s)
               else apply_response data (unsuspend k s)))"

text \<open>
  What the platform delivers to a suspended invocation. By the Fetch Standard the
  promise returned by \<open>fetch\<close> and the promise returned by \<open>Response.json\<close> reject with
  an \<open>AbortError\<close> once the signal passed to \<open>fetch\<close> is aborted, whatever arrives from
  the network afterwards; otherwise they settle with the outcome of the network.
\<close>

definition settle :: "component \<Rightarrow> nat \<Rightarrow> 'a settled \<Rightarrow> 'a settled" where
  "settle s k outcome = (if k \<in> set (aborted s) then Rejected AbortError else outcome)"

subsection \<open>Handlers\<close>

definition retryFetch :: "component \<Rightarrow> component" where
  "retryFetch s = fetchReviews s"

definition toggleForm :: "component \<Rightarrow> component" where
  "toggleForm s = render (s\<lparr>showForm := \<not> showForm s\<rparr>)"

text \<open>
  \<open>setFormRating\<close> returns when the form's elements are not in the markup; setting the
  hidden input and re-marking the stars is one mutation of the form.
\<close>

definition setFormRating :: "int \<Rightarrow> component \<Rightarrow> component" where
  "setFormRating rating s =
     (if \<not> form_rendered s then s
      else s\<lparr>form_ops := form_ops s @ [SetScoreInput rating]\<rparr>)"

definition showFormMessage :: "string \<Rightarrow> string \<Rightarrow> component \<Rightarrow> component" where
  "showFormMessage m type s =
     (if \<not> form_rendered s then s
      else s\<lparr>form_ops := form_ops s @ [ShowFormMessage m type]\<rparr>)"

text \<open>
  \<open>submitReview\<close> up to its \<open>await\<close>. The argument is the form data of
  \<open>event.target\<close>, \<open>None\<close> when the event has no target; \<open>formData.get('score')\<close> is
  falsy when the score is empty.
\<close>

definition submitReview :: "form_data option \<Rightarrow> component \<Rightarrow> component" where
  "submitReview target s =
     (case target of
        None \<Rightarrow> s
      | Some formData \<Rightarrow>
          if fd_score formData = [] then
            showFormMessage ''Please select a star rating'' ''error'' s
          else
            let submitBtn = form_rendered s;
                s1 = (if submitBtn
                      then s\<lparr>form_ops := form_ops s @ [SubmitButton True ''Submitting...'']\<rparr>
                      else s)
            in s1\<lparr>network := network s1 @ [ReviewPost (appKey s1) (productId s1) formData],
                   pending_submits := pending_submits s1 @ [submitBtn]\<rparr>)"

text \<open>
  The \<open>catch\<close> clause of \<open>submitReview\<close>; \<open>submitBtn\<close> is the element the
  invocation found before its \<open>await\<close>, if any.
\<close>

definition submitReview_catch :: "bool \<Rightarrow> component \<Rightarrow> component" where
  "submitReview_catch submitBtn s =
     (let s1 = showFormMessage ''Failed to submit review. Please try again.'' ''error'' s
      in if submitBtn
         then s1\<lparr>form_ops := form_ops s1 @ [SubmitButton False ''Submit Review'']\<rparr>
         else s1)"

text \<open>
  The \<open>n\<close>-th suspended invocation of \<open>submitReview\<close> after its \<open>await\<close>: the
  confirmation and a timer of three seconds, or the \<open>catch\<close> clause.
\<close>

definition submitReview_after_fetch ::
  "nat \<Rightarrow> http_response settled \<Rightarrow> component \<Rightarrow> component" where
  "submitReview_after_fetch n v s =
     (let submitBtn = pending_submits s ! n;
          s0 = s\<lparr>pending_submits := take n (pending_submits s) @ drop (Suc n) (pending_submits s)\<rparr>
      in case v of
           Rejected error \<Rightarrow> submitReview_catch submitBtn s0
         | Resolved response \<Rightarrow>
             if \<not> ok response then submitReview_catch submitBtn s0
             else (showFormMessage
                     ''Thank you! Your review has been submitted and is pending approval.''
                     ''success'' s0)\<lparr>timers := Suc (timers s0)\<rparr>)"

text \<open>The callback passed to \<open>setTimeout\<close>.\<close>

definition hide_form_timer :: "component \<Rightarrow> component" where
  "hide_form_timer s = render (s\<lparr>showForm := False, timers := timers s - 1\<rparr>)"

text \<open>
  \<open>String.prototype.split('-')\<close> and array destructuring, where a missing element is
  undefined.
\<close>

fun split_dash :: "string \<Rightarrow> string list" where
  "split_dash [] = [[]]"
| "split_dash (c # cs) =
     (if c = CHR ''-'' then [] # split_dash cs
      else (case split_dash cs of [] \<Rightarrow> [[c]] | p # ps \<Rightarrow> (c # p) # ps))"

fun element_at :: "'a list \<Rightarrow> nat \<Rightarrow> 'a option" where
  "element_at [] n = None"
| "element_at (x # xs) 0 = Some x"
| "element_at (x # xs) (Suc n) = element_at xs n"

text \<open>
  \<open>handleSort\<close>: the argument is \<open>event.target.value\<close>, \<open>None\<close> when the event has no
  target.
\<close>

definition handleSort :: "string option \<Rightarrow> component \<Rightarrow> component" where
  "handleSort target s =
     (case target of
        None \<Rightarrow> s
      | Some v \<Rightarrow>
          fetchReviews
            (s\<lparr>currentSort := element_at (split_dash v) 0,
               currentDirection := element_at (split_dash v) 1,
               currentPage := 1\<rparr>))"

definition filterByStar :: "int \<Rightarrow> component \<Rightarrow> component" where
  "filterByStar star s =
     fetchReviews
       ((if currentStarFilter s = Some star then s\<lparr>currentStarFilter := None\<rparr>
         else s\<lparr>currentStarFilter := Some star\<rparr>)\<lparr>currentPage := 1\<rparr>)"

definition clearStarFilter :: "component \<Rightarrow> component" where
  "clearStarFilter s = fetchReviews (s\<lparr>currentStarFilter := None, currentPage := 1\<rparr>)"

text \<open>
  \<open>openImageModal\<close> appends a modal showing the original URL of the image;
  \<open>closeImageModal\<close> removes the first modal, if any. The Escape key listener that
  \<open>openImageModal\<close> installs calls \<open>closeImageModal\<close>.
\<close>

definition openImageModal :: "int \<Rightarrow> int \<Rightarrow> component \<Rightarrow> component" where
  "openImageModal reviewId imageIndex s =
     (case find (\<lambda>r. review_id r = reviewId) (reviews s) of
        None \<Rightarrow> s
      | Some review \<Rightarrow>
          (case images_data review of
             None \<Rightarrow> s
           | Some images \<Rightarrow>
               if imageIndex < 0 then s
               else (case element_at images (nat imageIndex) of
                       None \<Rightarrow> s
                     | Some img \<Rightarrow> s\<lparr>modals := modals s @ [fst img]\<rparr>)))"

definition closeImageModal :: "component \<Rightarrow> component" where
  "closeImageModal s = s\<lparr>modals := tl (modals s)\<rparr>"

subsection \<open>Voting: \<open>voteHelpful\<close>\<close>

text \<open>
  The optimistic increment mutates the first review with the given ID:
  \<open>(review.votes_up || 0) + 1\<close>, or the same for \<open>votes_down\<close>.
\<close>

definition or_zero :: "int option \<Rightarrow> int" where
  "or_zero x = (case x of None \<Rightarrow> 0 | Some n \<Rightarrow> n)"

fun increment_vote :: "int \<Rightarrow> vote \<Rightarrow> review list \<Rightarrow> review list" where
  "increment_vote reviewId v [] = []"
| "increment_vote reviewId v (r # rs) =
     (if review_id r = reviewId then
        (case v of
           Up \<Rightarrow> r\<lparr>votes_up := Some (or_zero (votes_up r) + 1)\<rparr>
         | Down \<Rightarrow> r\<lparr>votes_down := Some (or_zero (votes_down r) + 1)\<rparr>) # rs
      else r # increment_vote reviewId v rs)"

text \<open>
  \<open>voteHelpful\<close> up to its \<open>await\<close>; nothing follows the \<open>await\<close>, and its \<open>catch\<close>
  clause is empty.
\<close>

definition voteHelpful :: "int \<Rightarrow> vote \<Rightarrow> component \<Rightarrow> component" where
  "voteHelpful reviewId v s =
     (if Set_has (votedReviews s) reviewId then s
      else
        let s1 = saveVotedReviews (s\<lparr>votedReviews := Set_add (votedReviews s) reviewId\<rparr>);
            s2 = render (s1\<lparr>reviews := increment_vote reviewId v (reviews s1)\<rparr>)
        in s2\<lparr>network := network s2 @ [VotePost reviewId v (appKey s2)]\<rparr>)"

subsection \<open>Page navigation: \<open>goToPage\<close>\<close>

definition scrollIntoView :: "component \<Rightarrow> component" where
  "scrollIntoView s = s\<lparr>scrolls := Suc (scrolls s)\<rparr>"

definition goToPage :: "int \<Rightarrow> component \<Rightarrow> component" where
  "goToPage page s =
     (let totalPages = (case pagination s of
                          None \<Rightarrow> 1
                        | Some p \<Rightarrow> \<lceil>real_of_int (pg_total p) / real_of_int perPage\<rceil>)
      in if page < 1 \<or> page > totalPages then s
         else scrollIntoView (fetchReviews (s\<lparr>currentPage := page\<rparr>)))"

subsection \<open>Life cycle and events\<close>

text \<open>
  The two callbacks first call the base class \<open>Component\<close>, which is imported from
  the theme and touches none of the fields above. A session starts with
  \<open>connectedCallback\<close> on a new element.
\<close>

definition connectedCallback :: "component \<Rightarrow> component" where
  "connectedCallback s = fetchReviews (loadVotedReviews s)"

definition disconnectedCallback :: "component \<Rightarrow> component" where
  "disconnectedCallback s = abort_current s"

text \<open>
  Everything that runs code of the component after \<open>connectedCallback\<close>: the handlers
  bound in the markup, \<open>disconnectedCallback\<close>, and the resumption of a suspended
  invocation when the network has answered or failed. A resumption carries the
  outcome of the network; \<open>settle\<close> turns it into what the invocation receives. An
  event for an invocation that is not suspended at that point does nothing.
\<close>

datatype event =
    RetryFetch
  | ToggleForm
  | SetFormRating int
  | SubmitReview "form_data option"
  | HandleSort "string option"
  | FilterByStar int
  | ClearStarFilter
  | OpenImageModal int int
  | CloseImageModal
  | VoteHelpful int vote
  | GoToPage int
  | Disconnected
  | FetchSettles nat "http_response settled"
  | JsonSettles nat "yotpo_response settled"
  | SubmitSettles nat "http_response settled"
  | TimerFires

fun fire :: "event \<Rightarrow> component \<Rightarrow> component" where
  "fire RetryFetch s = retryFetch s"
| "fire ToggleForm s = toggleForm s"
| "fire (SetFormRating rating) s = setFormRating rating s"
| "fire (SubmitReview target) s = submitReview target s"
| "fire (HandleSort target) s = handleSort target s"
| "fire (FilterByStar star) s = filterByStar star s"
| "fire ClearStarFilter s = clearStarFilter s"
| "fire (OpenImageModal reviewId imageIndex) s = openImageModal reviewId imageIndex s"
| "fire CloseImageModal s = closeImageModal s"
| "fire (VoteHelpful reviewId v) s = voteHelpful reviewId v s"
| "fire (GoToPage page) s = goToPage page s"
| "fire Disconnected s = disconnectedCallback s"
| "fire (FetchSettles k outcome) s =
     (if (k, AwaitFetch) \<in> set (pending s)
      then fetchReviews_after_fetch k (settle s k outcome) s else s)"
| "fire (JsonSettles k outcome) s =
     (if (k, AwaitJson) \<in> set (pending s)
      then fetchReviews_after_json k (settle s k outcome) s else s)"
| "fire (SubmitSettles n outcome) s =
     (if n < length (pending_submits s) then submitReview_after_fetch n outcome s else s)"
| "fire TimerFires s = (if timers s = 0 then s else hide_form_timer s)"

text \<open>A session: the events in the order in which they happen.\<close>

fun run :: "event list \<Rightarrow> component \<Rightarrow> component" where
  "run [] s = s"
| "run (e # es) s = run es (fire e s)"

subsection \<open>The most recent listing request\<close>

text \<open>
  The signal of the listing request issued last, read off the network calls in the
  order in which they were issued.
\<close>

fun last_listing :: "request list \<Rightarrow> nat option" where
  "last_listing [] = None"
| "last_listing (ListingGet u k # rs) =
     (case last_listing rs of None \<Rightarrow> Some k | Some j \<Rightarrow> Some j)"
| "last_listing (VotePost i v a # rs) = last_listing rs"
| "last_listing (ReviewPost a p f # rs) = last_listing rs"

text \<open>
  What holds of the controller bookkeeping throughout a session: the current
  controller belongs to the listing request issued last; a suspended invocation
  either holds the current controller's signal or an aborted one; aborted signals and
  the current controller are older than the next fresh controller.
\<close>

definition consistent :: "component \<Rightarrow> bool" where
  "consistent s =
     (abortController s = last_listing (network s)
      \<and> list_all (\<lambda>(k, p). abortController s = Some k \<or> k \<in> set (aborted s)) (pending s)
      \<and> list_all (\<lambda>k. k < next_controller s) (aborted s)
      \<and> (case abortController s of None \<Rightarrow> True | Some c \<Rightarrow> c < next_controller s))"

subsection \<open>An example state\<close>

text \<open>
  A component with both identifiers, one review that has two helpful votes, and 35
  reviews in all, used to evaluate the handlers.
\<close>

definition example_review :: review where
  "example_review = \<lparr>review_id = 7, review_score = 5, review_content = ''Great'',
                      votes_up = Some 2, votes_down = None, images_data = None\<rparr>"

definition example_state :: component where
  "example_state =
     (initial [(''app-key'', ''k''), (''product-id'', ''p1'')] None False)
       \<lparr>reviews := [example_review],
        pagination := Some \<lparr>pg_page = 1, pg_per_page = 10, pg_total = 35\<rparr>\<rparr>"

text \<open>
  A response payload, and a session with two overlapping listing requests: request 0
  from \<open>connectedCallback\<close>, whose response headers arrive, then a click on the
  five-star bar that issues request 1, whose response headers arrive too. Both
  invocations wait for their bodies.
\<close>

definition example_data :: "int \<Rightarrow> yotpo_response" where
  "example_data n =
     \<lparr>response_status = Some 200,
      response_bottomline =
        Some \<lparr>total_review = n, average_score = 4, star_distribution = None\<rparr>,
      response_reviews = Some [],
      response_pagination = Some \<lparr>pg_page = 1, pg_per_page = 10, pg_total = n\<rparr>\<rparr>"

definition example_attrs :: "(string \<times> string) list" where
  "example_attrs = [(''app-key'', ''k''), (''product-id'', ''p1'')]"

definition example_session :: component where
  "example_session =
     run [FetchSettles 0 (Resolved \<lparr>ok = True, http_status = 200\<rparr>), FilterByStar 5,
          FetchSettles 1 (Resolved \<lparr>ok = True, http_status = 200\<rparr>)]
       (connectedCallback (initial example_attrs None False))"

section \<open>Properties\<close>

subsection \<open>Star display\<close>

lemma floor_bounds:
  assumes "0 \<le> (r::real)" and "r \<le> 5"
  shows "0 \<le> \<lfloor>r\<rfloor>" and "\<lfloor>r\<rfloor> \<le> 5"
  using assms by (simp_all add: floor_le_iff le_floor_iff) 

lemma floor_le_4:
  assumes "(r::real) \<le> 5" and "0 < r - of_int \<lfloor>r\<rfloor>"
  shows "\<lfloor>r\<rfloor> \<le> 4"
proof -
  have "of_int \<lfloor>r\<rfloor> < r" using assms(2) by simp
  then have "of_int \<lfloor>r\<rfloor> < (5::real)" using assms(1) by linarith
  then have "\<lfloor>r\<rfloor> < 5" by linarith
  then show ?thesis by simp
qed

lemma renderStars_upto_seven_tenths:
  assumes "0 \<le> r" and "r \<le> 5" and "r - of_int \<lfloor>r\<rfloor> \<le> 7 / 10"
  shows "renderStars r =
           Inr (replicate (nat \<lfloor>r\<rfloor>) Filled
                @ (if 3 / 10 \<le> r - of_int \<lfloor>r\<rfloor> then [Half] else [])
                @ replicate (5 - nat \<lfloor>r\<rfloor> - (if 3 / 10 \<le> r - of_int \<lfloor>r\<rfloor> then 1 else 0)) Empty)"
proof -
  note fb = floor_bounds [OF assms(1,2)]
  have half: "3 / 10 \<le> r - of_int \<lfloor>r\<rfloor> \<Longrightarrow> \<lfloor>r\<rfloor> \<le> 4"
    using floor_le_4 [OF assms(2)] by linarith
  show ?thesis
  proof (cases "3 / 10 \<le> r - of_int \<lfloor>r\<rfloor>")
    case True
    have "nat (4 - \<lfloor>r\<rfloor>) = 5 - nat \<lfloor>r\<rfloor> - 1" using fb half [OF True] by linarith
    then show ?thesis
      using True assms(3) fb by (simp add: renderStars_def Let_def max_def)
  next
    case False
    have "nat (5 - \<lfloor>r\<rfloor>) = 5 - nat \<lfloor>r\<rfloor>" using fb by linarith
    then show ?thesis
      using False assms(3) fb by (simp add: renderStars_def Let_def max_def)
  qed
qed

lemma renderStars_above_seven_tenths:
  assumes "0 \<le> r" and "r \<le> 5" and "7 / 10 < r - of_int \<lfloor>r\<rfloor>"
  shows "renderStars r =
           Inr (replicate (nat \<lfloor>r\<rfloor> + 1) Filled @ replicate (3 - nat \<lfloor>r\<rfloor>) Empty)"
proof -
  note fb = floor_bounds [OF assms(1,2)]
  have f4: "\<lfloor>r\<rfloor> \<le> 4" using floor_le_4 [OF assms(2)] assms(3) by linarith
  have a: "nat (\<lfloor>r\<rfloor> + 1) = nat \<lfloor>r\<rfloor> + 1" using fb by linarith
  have b: "nat (max 0 (5 - \<lfloor>r\<rfloor> - 0 - 1 - 1)) = 3 - nat \<lfloor>r\<rfloor>" using fb by linarith
  have c: "\<not> (r - of_int \<lfloor>r\<rfloor> \<le> 7 / 10)" using assms(3) by linarith
  show ?thesis
    using assms(3) fb a b c by (simp add: renderStars_def Let_def)
qed

text \<open>
  C1 (star display, total of five). The claim fails on the code: the extra filled star
  of a fraction above 0.7 is taken off the empty stars twice, once inside
  \<open>emptyStars\<close> and once more in \<open>emptyStars - extraFull\<close>. At the rating 3.75
  (exact as a double, as are 3.75 - 3 and its comparison with 0.7) the display is four
  filled stars and nothing else: four stars where the claim says five.
\<close>

theorem renderStars_3_75_has_four_stars:
  "renderStars (15 / 4) = Inr [Filled, Filled, Filled, Filled]"
  by (simp add: renderStars_def Let_def numeral_eq_Suc)

subsection \<open>Pagination window\<close>

lemma map_upt_upto: "map (\<lambda>i. int i + 1) [0..<n] = [1..int n]"
  by (induction n) (simp_all add: upto_rec2)

lemma all_pages: "0 \<le> t \<Longrightarrow> map (\<lambda>i. PageNum (int i + 1)) [0..<nat t] = map PageNum [1..t]"
proof -
  assume "0 \<le> t"
  have "map (\<lambda>i. PageNum (int i + 1)) [0..<nat t] = map PageNum (map (\<lambda>i. int i + 1) [0..<nat t])"
    by simp
  also have "\<dots> = map PageNum [1..int (nat t)]" by (simp only: map_upt_upto)
  finally show ?thesis using \<open>0 \<le> t\<close> by simp
qed

text \<open>
  C2 (pagination window). For a current page \<open>c\<close> and a page count \<open>t\<close> with
  \<open>1 \<le> c \<le> t\<close>: all of \<open>1 .. t\<close> and no ellipsis when \<open>t \<le> 7\<close>; the first five
  pages, an ellipsis and \<open>t\<close> when \<open>t > 7\<close> and \<open>c \<le> 4\<close>; page 1, an ellipsis and the
  last five pages when \<open>t > 7\<close> and \<open>c\<close> is within 3 of \<open>t\<close>; page 1, an ellipsis,
  \<open>c - 1, c, c + 1\<close>, an ellipsis and \<open>t\<close> otherwise; and the three windows the
  specification lists for ten pages.
\<close>

theorem generatePageNumbers_window:
  "(1 \<le> c \<and> c \<le> t \<longrightarrow>
      (t \<le> 7 \<longrightarrow> generatePageNumbers c t = map PageNum [1..t]
                   \<and> Ellipsis \<notin> set (generatePageNumbers c t)) \<and>
      (7 < t \<and> c \<le> 4 \<longrightarrow> generatePageNumbers c t =
         [PageNum 1, PageNum 2, PageNum 3, PageNum 4, PageNum 5, Ellipsis, PageNum t]) \<and>
      (7 < t \<and> t - c \<le> 3 \<longrightarrow> generatePageNumbers c t =
         [PageNum 1, Ellipsis, PageNum (t - 4), PageNum (t - 3), PageNum (t - 2),
          PageNum (t - 1), PageNum t]) \<and>
      (7 < t \<and> 4 < c \<and> 3 < t - c \<longrightarrow> generatePageNumbers c t =
         [PageNum 1, Ellipsis, PageNum (c - 1), PageNum c, PageNum (c + 1), Ellipsis,
          PageNum t]))
   \<and> generatePageNumbers 1 10 =
       [PageNum 1, PageNum 2, PageNum 3, PageNum 4, PageNum 5, Ellipsis, PageNum 10]
   \<and> generatePageNumbers 9 10 =
       [PageNum 1, Ellipsis, PageNum 6, PageNum 7, PageNum 8, PageNum 9, PageNum 10]
   \<and> generatePageNumbers 5 10 =
       [PageNum 1, Ellipsis, PageNum 4, PageNum 5, PageNum 6, Ellipsis, PageNum 10]"
proof -
  have small: "generatePageNumbers c t = map PageNum [1..t]" if "1 \<le> c" "c \<le> t" "t \<le> 7"
    using that all_pages [of t] by (simp add: generatePageNumbers_def)
  have noell: "Ellipsis \<notin> set (generatePageNumbers c t)" if "1 \<le> c" "c \<le> t" "t \<le> 7"
    unfolding small [OF that] by auto
  have low: "generatePageNumbers c t =
         [PageNum 1, PageNum 2, PageNum 3, PageNum 4, PageNum 5, Ellipsis, PageNum t]"
    if "7 < t" "c \<le> 4"
    using that by (simp add: generatePageNumbers_def)
  have high: "generatePageNumbers c t =
         [PageNum 1, Ellipsis, PageNum (t - 4), PageNum (t - 3), PageNum (t - 2),
          PageNum (t - 1), PageNum t]" if "7 < t" "t - c \<le> 3"
  proof -
    from that have "\<not> c \<le> 4" and "t - 3 \<le> c" by linarith+
    with that show ?thesis by (simp add: generatePageNumbers_def)
  qed
  have mid: "generatePageNumbers c t =
         [PageNum 1, Ellipsis, PageNum (c - 1), PageNum c, PageNum (c + 1), Ellipsis,
          PageNum t]" if "7 < t" "4 < c" "3 < t - c"
  proof -
    from that have "\<not> c \<le> 4" and "\<not> t - 3 \<le> c" by linarith+
    with that show ?thesis by (simp add: generatePageNumbers_def)
  qed
  have ex: "generatePageNumbers 1 10 =
       [PageNum 1, PageNum 2, PageNum 3, PageNum 4, PageNum 5, Ellipsis, PageNum 10]"
    "generatePageNumbers 9 10 =
       [PageNum 1, Ellipsis, PageNum 6, PageNum 7, PageNum 8, PageNum 9, PageNum 10]"
    "generatePageNumbers 5 10 =
       [PageNum 1, Ellipsis, PageNum 4, PageNum 5, PageNum 6, Ellipsis, PageNum 10]"
    by (simp_all add: generatePageNumbers_def)
  show ?thesis using small noell low high mid ex by blast
qed

theorem generatePageNumbers_window_witness:
  "generatePageNumbers 3 6 = [PageNum 1, PageNum 2, PageNum 3, PageNum 4, PageNum 5, PageNum 6]
   \<and> generatePageNumbers 2 12 =
       [PageNum 1, PageNum 2, PageNum 3, PageNum 4, PageNum 5, Ellipsis, PageNum 12]
   \<and> generatePageNumbers 10 12 =
       [PageNum 1, Ellipsis, PageNum 8, PageNum 9, PageNum 10, PageNum 11, PageNum 12]
   \<and> generatePageNumbers 6 12 =
       [PageNum 1, Ellipsis, PageNum 5, PageNum 6, PageNum 7, Ellipsis, PageNum 12]"
proof -
  have u: "[1..6::int] = [1, 2, 3, 4, 5, 6]" by code_simp
  show ?thesis
    using generatePageNumbers_window [of 3 6] generatePageNumbers_window [of 2 12]
      generatePageNumbers_window [of 10 12] generatePageNumbers_window [of 6 12]
    by (simp add: u)
qed

text \<open>
  C10 (shape of the window). With more than seven pages and \<open>1 \<le> c \<le> t\<close> the window
  has exactly seven entries, starts with page 1, ends with page \<open>t\<close>, and its page
  numbers are strictly increasing.
\<close>

theorem generatePageNumbers_shape:
  assumes "7 < t" and "1 \<le> c" and "c \<le> t"
  shows "length (generatePageNumbers c t) = 7
         \<and> hd (generatePageNumbers c t) = PageNum 1
         \<and> last (generatePageNumbers c t) = PageNum t
         \<and> sorted_wrt (<) (numeric_entries (generatePageNumbers c t))"
  using assms by (simp add: generatePageNumbers_def)

theorem generatePageNumbers_shape_witness:
  "(7::int) < 10 \<and> (1::int) \<le> 5 \<and> (5::int) \<le> 10
   \<and> length (generatePageNumbers 5 10) = 7
   \<and> hd (generatePageNumbers 5 10) = PageNum 1
   \<and> last (generatePageNumbers 5 10) = PageNum 10
   \<and> numeric_entries (generatePageNumbers 5 10) = [1, 4, 5, 6, 10]"
  using generatePageNumbers_shape [of 10 5] by (simp add: generatePageNumbers_def)

subsection \<open>Histogram\<close>




subsection \<open>Fetch controller\<close>

lemma fetchReviews_missing:
  "appKey s = [] \<or> productId s = [] \<Longrightarrow>
     fetchReviews s = renderError (Text ''Missing app-key or product-id attribute'') s"
  by (simp add: fetchReviews_def)

lemma appKey_abort_current [simp]: "appKey (abort_current s) = appKey s"
  and productId_abort_current [simp]: "productId (abort_current s) = productId s"
  by (simp_all add: abort_current_def appKey_def productId_def getAttribute_def split: option.splits)

lemma fetchReviews_present:
  assumes "appKey s \<noteq> []" and "productId s \<noteq> []"
  shows "network (fetchReviews s) = network s @ [ListingGet (buildApiUrl s) (next_controller s)]"
    and "abortController (fetchReviews s) = Some (next_controller s)"
    and "isLoading (fetchReviews s)"
  using assms
  by (simp_all add: fetchReviews_def Let_def render_def abort_current_def buildApiUrl_def
        appKey_def productId_def getAttribute_def split: option.splits)

lemma fetchReviews_keeps:
  "currentPage (fetchReviews s) = currentPage s"
  "currentSort (fetchReviews s) = currentSort s"
  "currentDirection (fetchReviews s) = currentDirection s"
  "currentStarFilter (fetchReviews s) = currentStarFilter s"
  "votedReviews (fetchReviews s) = votedReviews s"
  "scrolls (fetchReviews s) = scrolls s"
  by (simp_all add: fetchReviews_def Let_def render_def renderError_def abort_current_def
        split: option.splits)

lemma identifiers_update [simp]:
  "appKey (s\<lparr>currentPage := p\<rparr>) = appKey s"
  "productId (s\<lparr>currentPage := p\<rparr>) = productId s"
  "appKey (s\<lparr>currentStarFilter := f\<rparr>) = appKey s"
  "productId (s\<lparr>currentStarFilter := f\<rparr>) = productId s"
  "appKey (s\<lparr>currentSort := a\<rparr>) = appKey s"
  "productId (s\<lparr>currentSort := a\<rparr>) = productId s"
  "appKey (s\<lparr>currentDirection := d\<rparr>) = appKey s"
  "productId (s\<lparr>currentDirection := d\<rparr>) = productId s"
  by (simp_all add: appKey_def productId_def getAttribute_def)

text \<open>
  C5 (missing identifiers). When the app key or the product ID is empty,
  \<open>#fetchReviews\<close> shows the error view and returns: no network call is issued, no
  invocation is suspended, and the summary, the reviews, the pagination data and the
  loading flag are as before.
\<close>

theorem fetchReviews_missing_identifier:
  assumes "appKey s = [] \<or> productId s = []"
  shows "fetchReviews s
           = s\<lparr>innerHTML := ErrorMarkup (Text ''Missing app-key or product-id attribute''),
               modals := []\<rparr>
         \<and> network (fetchReviews s) = network s
         \<and> pending (fetchReviews s) = pending s
         \<and> bottomline (fetchReviews s) = bottomline s
         \<and> reviews (fetchReviews s) = reviews s
         \<and> pagination (fetchReviews s) = pagination s
         \<and> isLoading (fetchReviews s) = isLoading s"
  using assms by (simp add: fetchReviews_def renderError_def)

theorem fetchReviews_missing_identifier_witness:
  "appKey (initial [(''product-id'', ''p1'')] None False) = []
   \<and> innerHTML (fetchReviews (initial [(''product-id'', ''p1'')] None False))
       = ErrorMarkup (Text ''Missing app-key or product-id attribute'')
   \<and> network (fetchReviews (initial [(''product-id'', ''p1'')] None False)) = []
   \<and> \<not> isLoading (fetchReviews (initial [(''product-id'', ''p1'')] None False))"
proof -
  have h: "appKey (initial [(''product-id'', ''p1'')] None False) = []"
    by (simp add: appKey_def getAttribute_def initial_def)
  show ?thesis
    using h fetchReviews_missing_identifier [of "initial [(''product-id'', ''p1'')] None False"]
    by (simp add: initial_def)
qed

subsection \<open>Voting\<close>

lemma voteHelpful_marks: "Set_has (votedReviews (voteHelpful reviewId v s)) reviewId"
  by (simp add: voteHelpful_def Let_def Set_has_def Set_add_def render_def saveVotedReviews_def)

text \<open>
  C4 (voting is idempotent). A call of \<open>voteHelpful\<close> for a review ID in the voted
  set returns the state as it is: no counter, no voted set, no storage write, no
  network call. Hence a second vote on the same ID, in either direction, leaves the
  state of the first vote.
\<close>

theorem voteHelpful_voted_noop:
  "(Set_has (votedReviews s) reviewId \<longrightarrow> voteHelpful reviewId v s = s)
   \<and> voteHelpful reviewId v' (voteHelpful reviewId v s) = voteHelpful reviewId v s"
proof
  show "Set_has (votedReviews s) reviewId \<longrightarrow> voteHelpful reviewId v s = s"
    by (simp add: voteHelpful_def)
next
  have "Set_has (votedReviews (voteHelpful reviewId v s)) reviewId"
    by (rule voteHelpful_marks)
  then show "voteHelpful reviewId v' (voteHelpful reviewId v s) = voteHelpful reviewId v s"
    by (simp add: voteHelpful_def [of reviewId v'])
qed

theorem voteHelpful_voted_noop_witness:
  "Set_has (votedReviews (voteHelpful 7 Up example_state)) 7
   \<and> voteHelpful 7 Down (voteHelpful 7 Up example_state) = voteHelpful 7 Up example_state
   \<and> map votes_up (reviews (voteHelpful 7 Down (voteHelpful 7 Up example_state))) = [Some 3]
   \<and> map votes_down (reviews (voteHelpful 7 Down (voteHelpful 7 Up example_state))) = [None]
   \<and> network (voteHelpful 7 Down (voteHelpful 7 Up example_state)) = [VotePost 7 Up ''k'']
   \<and> localStorage_item (voteHelpful 7 Down (voteHelpful 7 Up example_state)) = Some (IdArray [7])"
proof -
  have once: "voteHelpful 7 Up example_state =
      example_state\<lparr>votedReviews := [7], localStorage_item := Some (IdArray [7]),
        reviews := [example_review\<lparr>votes_up := Some 3\<rparr>],
        innerHTML := MainMarkup False False, modals := [],
        network := [VotePost 7 Up ''k'']\<rparr>"
    by (simp add: voteHelpful_def Let_def Set_has_def Set_add_def saveVotedReviews_def
          render_def example_state_def example_review_def initial_def or_zero_def
          appKey_def getAttribute_def)
  have h: "Set_has (votedReviews (voteHelpful 7 Up example_state)) 7"
    by (simp add: once Set_has_def)
  show ?thesis
    using h voteHelpful_voted_noop [of "voteHelpful 7 Up example_state" 7 Down Up]
      voteHelpful_voted_noop [of example_state 7 Up Down]
    by (simp add: once example_review_def)
qed

subsection \<open>Sort, filter and page navigation\<close>

text \<open>
  C6 (sort and filter reset the page). \<open>handleSort\<close> on a select element,
  \<open>filterByStar\<close> and \<open>clearStarFilter\<close> leave the current page at 1 and call
  \<open>#fetchReviews\<close> on the updated fields; with both identifiers present the listing
  request they issue asks for page 1 with the new sort or filter. Selecting the active
  star clears the filter, selecting another star sets it.
\<close>

theorem sort_and_filter_reset_page:
  "currentPage (handleSort (Some v) s) = 1
   \<and> currentPage (filterByStar star s) = 1
   \<and> currentPage (clearStarFilter s) = 1
   \<and> currentSort (handleSort (Some v) s) = element_at (split_dash v) 0
   \<and> currentDirection (handleSort (Some v) s) = element_at (split_dash v) 1
   \<and> currentStarFilter (filterByStar star s)
       = (if currentStarFilter s = Some star then None else Some star)
   \<and> currentStarFilter (clearStarFilter s) = None
   \<and> handleSort (Some v) s
       = fetchReviews (s\<lparr>currentSort := element_at (split_dash v) 0,
                          currentDirection := element_at (split_dash v) 1,
                          currentPage := 1\<rparr>)
   \<and> filterByStar star s
       = fetchReviews (s\<lparr>currentStarFilter :=
                            (if currentStarFilter s = Some star then None else Some star),
                          currentPage := 1\<rparr>)
   \<and> clearStarFilter s = fetchReviews (s\<lparr>currentStarFilter := None, currentPage := 1\<rparr>)
   \<and> (appKey s \<noteq> [] \<and> productId s \<noteq> [] \<longrightarrow>
        network (handleSort (Some v) s)
          = network s @ [ListingGet ((buildApiUrl s)\<lparr>q_page := 1,
                                        q_sort := element_at (split_dash v) 0,
                                        q_direction := element_at (split_dash v) 1\<rparr>)
                           (next_controller s)]
        \<and> network (filterByStar star s)
          = network s @ [ListingGet ((buildApiUrl s)\<lparr>q_page := 1,
                                        q_star := (if currentStarFilter s = Some star
                                                   then None else Some star)\<rparr>)
                           (next_controller s)]
        \<and> network (clearStarFilter s)
          = network s @ [ListingGet ((buildApiUrl s)\<lparr>q_page := 1, q_star := None\<rparr>)
                           (next_controller s)])"
proof -
  have sort: "handleSort (Some v) s
       = fetchReviews (s\<lparr>currentSort := element_at (split_dash v) 0,
                          currentDirection := element_at (split_dash v) 1,
                          currentPage := 1\<rparr>)"
    by (simp add: handleSort_def)
  have star: "filterByStar star s
       = fetchReviews (s\<lparr>currentStarFilter :=
                            (if currentStarFilter s = Some star then None else Some star),
                          currentPage := 1\<rparr>)"
    by (simp add: filterByStar_def)
  have clear: "clearStarFilter s = fetchReviews (s\<lparr>currentStarFilter := None, currentPage := 1\<rparr>)"
    by (simp add: clearStarFilter_def)
  have fields:
    "currentPage (handleSort (Some v) s) = 1"
    "currentPage (filterByStar star s) = 1"
    "currentPage (clearStarFilter s) = 1"
    "currentSort (handleSort (Some v) s) = element_at (split_dash v) 0"
    "currentDirection (handleSort (Some v) s) = element_at (split_dash v) 1"
    "currentStarFilter (filterByStar star s)
       = (if currentStarFilter s = Some star then None else Some star)"
    "currentStarFilter (clearStarFilter s) = None"
    unfolding sort star clear by (simp_all add: fetchReviews_keeps)
  have requests:
    "network (handleSort (Some v) s)
          = network s @ [ListingGet ((buildApiUrl s)\<lparr>q_page := 1,
                                        q_sort := element_at (split_dash v) 0,
                                        q_direction := element_at (split_dash v) 1\<rparr>)
                           (next_controller s)]"
    "network (filterByStar star s)
          = network s @ [ListingGet ((buildApiUrl s)\<lparr>q_page := 1,
                                        q_star := (if currentStarFilter s = Some star
                                                   then None else Some star)\<rparr>)
                           (next_controller s)]"
    "network (clearStarFilter s)
          = network s @ [ListingGet ((buildApiUrl s)\<lparr>q_page := 1, q_star := None\<rparr>)
                           (next_controller s)]"
    if "appKey s \<noteq> []" "productId s \<noteq> []"
    unfolding sort star clear using that
    by (simp_all add: fetchReviews_present(1) buildApiUrl_def)
  show ?thesis using sort star clear fields requests by blast
qed

theorem sort_and_filter_reset_page_witness:
  "currentPage (handleSort (Some ''votes_up-desc'') (example_state\<lparr>currentPage := 3\<rparr>)) = 1
   \<and> network (handleSort (Some ''votes_up-desc'') (example_state\<lparr>currentPage := 3\<rparr>))
       = [ListingGet \<lparr>url_app_key = ''k'', url_product_id = ''p1'', q_per_page = 10,
                       q_page = 1, q_sort = Some ''votes_up'', q_direction = Some ''desc'',
                       q_star = None\<rparr> 0]
   \<and> currentStarFilter (filterByStar 4 (example_state\<lparr>currentStarFilter := Some 4\<rparr>)) = None
   \<and> currentStarFilter (filterByStar 5 (example_state\<lparr>currentStarFilter := Some 4\<rparr>)) = Some 5"
proof -
  have ids: "appKey (example_state\<lparr>currentPage := 3\<rparr>) \<noteq> []
             \<and> productId (example_state\<lparr>currentPage := 3\<rparr>) \<noteq> []"
    by (simp add: example_state_def initial_def appKey_def productId_def getAttribute_def)
  have url: "buildApiUrl (example_state\<lparr>currentPage := 3\<rparr>) =
      \<lparr>url_app_key = ''k'', url_product_id = ''p1'', q_per_page = 10,
                       q_page = 3, q_sort = Some ''date'', q_direction = Some ''desc'',
                       q_star = None\<rparr>"
    by (simp add: buildApiUrl_def perPage_def example_state_def initial_def appKey_def
          productId_def getAttribute_def)
  have st: "network (example_state\<lparr>currentPage := 3\<rparr>) = []"
    "next_controller (example_state\<lparr>currentPage := 3\<rparr>) = 0"
    by (simp_all add: example_state_def initial_def)
  have sp: "element_at (split_dash ''votes_up-desc'') 0 = Some ''votes_up''"
    "element_at (split_dash ''votes_up-desc'') 1 = Some ''desc''"
    by simp_all
  note sorted = sort_and_filter_reset_page
    [of "''votes_up-desc''" "example_state\<lparr>currentPage := 3\<rparr>" 4]
  note same = sort_and_filter_reset_page
    [of "''votes_up-desc''" "example_state\<lparr>currentStarFilter := Some 4\<rparr>" 4]
  note other = sort_and_filter_reset_page
    [of "''votes_up-desc''" "example_state\<lparr>currentStarFilter := Some 4\<rparr>" 5]
  have a: "currentPage (handleSort (Some ''votes_up-desc'') (example_state\<lparr>currentPage := 3\<rparr>)) = 1"
    using sorted by blast
  have "network (handleSort (Some ''votes_up-desc'') (example_state\<lparr>currentPage := 3\<rparr>))
      = network (example_state\<lparr>currentPage := 3\<rparr>)
        @ [ListingGet ((buildApiUrl (example_state\<lparr>currentPage := 3\<rparr>))
                         \<lparr>q_page := 1,
                          q_sort := element_at (split_dash ''votes_up-desc'') 0,
                          q_direction := element_at (split_dash ''votes_up-desc'') 1\<rparr>)
             (next_controller (example_state\<lparr>currentPage := 3\<rparr>))]"
    using sorted ids by blast
  then have b: "network (handleSort (Some ''votes_up-desc'') (example_state\<lparr>currentPage := 3\<rparr>))
       = [ListingGet \<lparr>url_app_key = ''k'', url_product_id = ''p1'', q_per_page = 10,
                       q_page = 1, q_sort = Some ''votes_up'', q_direction = Some ''desc'',
                       q_star = None\<rparr> 0]"
    by (simp only: url st sp) simp
  have "currentStarFilter (filterByStar 4 (example_state\<lparr>currentStarFilter := Some 4\<rparr>))
      = (if currentStarFilter (example_state\<lparr>currentStarFilter := Some 4\<rparr>) = Some 4
         then None else Some 4)"
    using same by blast
  then have c: "currentStarFilter (filterByStar 4 (example_state\<lparr>currentStarFilter := Some 4\<rparr>))
      = None"
    by simp
  have "currentStarFilter (filterByStar 5 (example_state\<lparr>currentStarFilter := Some 4\<rparr>))
      = (if currentStarFilter (example_state\<lparr>currentStarFilter := Some 4\<rparr>) = Some 5
         then None else Some 5)"
    using other by blast
  then have d: "currentStarFilter (filterByStar 5 (example_state\<lparr>currentStarFilter := Some 4\<rparr>))
      = Some 5"
    by simp
  show ?thesis using a b c d by blast
qed

text \<open>
  C7 (page navigation). With \<open>totalPages\<close> the ceiling of \<open>total / perPage\<close> of the
  pagination data, or 1 without pagination data: \<open>goToPage\<close> outside
  \<open>[1, totalPages]\<close> returns the state as it is (no page change, no fetch, no
  scroll); inside it sets the current page, calls \<open>#fetchReviews\<close>, which with both
  identifiers present issues the listing request for that page, and scrolls once.
\<close>

theorem goToPage_range:
  "(page < 1 \<or> (case pagination s of None \<Rightarrow> 1
                  | Some p \<Rightarrow> \<lceil>real_of_int (pg_total p) / real_of_int perPage\<rceil>) < page
      \<longrightarrow> goToPage page s = s)
   \<and> (1 \<le> page \<and> page \<le> (case pagination s of None \<Rightarrow> 1
                  | Some p \<Rightarrow> \<lceil>real_of_int (pg_total p) / real_of_int perPage\<rceil>)
      \<longrightarrow> goToPage page s = scrollIntoView (fetchReviews (s\<lparr>currentPage := page\<rparr>))
          \<and> currentPage (goToPage page s) = page
          \<and> scrolls (goToPage page s) = Suc (scrolls s)
          \<and> (appKey s \<noteq> [] \<and> productId s \<noteq> [] \<longrightarrow>
               network (goToPage page s)
                 = network s @ [ListingGet ((buildApiUrl s)\<lparr>q_page := page\<rparr>)
                                  (next_controller s)]))"
proof (intro conjI impI)
  assume "page < 1 \<or> (case pagination s of None \<Rightarrow> 1
                  | Some p \<Rightarrow> \<lceil>real_of_int (pg_total p) / real_of_int perPage\<rceil>) < page"
  then show "goToPage page s = s" by (auto simp add: goToPage_def Let_def)
next
  assume inside: "1 \<le> page \<and> page \<le> (case pagination s of None \<Rightarrow> 1
                  | Some p \<Rightarrow> \<lceil>real_of_int (pg_total p) / real_of_int perPage\<rceil>)"
  then show go: "goToPage page s = scrollIntoView (fetchReviews (s\<lparr>currentPage := page\<rparr>))"
    by (auto simp add: goToPage_def Let_def)
  show "currentPage (goToPage page s) = page"
    unfolding go by (simp add: scrollIntoView_def fetchReviews_keeps)
  show "scrolls (goToPage page s) = Suc (scrolls s)"
    unfolding go by (simp add: scrollIntoView_def fetchReviews_keeps)
  assume "appKey s \<noteq> [] \<and> productId s \<noteq> []"
  then show "network (goToPage page s)
                 = network s @ [ListingGet ((buildApiUrl s)\<lparr>q_page := page\<rparr>)
                                  (next_controller s)]"
    unfolding go by (simp add: scrollIntoView_def fetchReviews_present(1) buildApiUrl_def)
qed

lemma total_pages_example:
  "(case pagination example_state of None \<Rightarrow> 1
    | Some p \<Rightarrow> \<lceil>real_of_int (pg_total p) / real_of_int perPage\<rceil>) = 4"
  by (simp add: example_state_def perPage_def)

theorem goToPage_range_witness:
  "goToPage 0 example_state = example_state
   \<and> goToPage 5 example_state = example_state
   \<and> currentPage (goToPage 4 example_state) = 4
   \<and> scrolls (goToPage 4 example_state) = 1
   \<and> network (goToPage 4 example_state)
       = [ListingGet \<lparr>url_app_key = ''k'', url_product_id = ''p1'', q_per_page = 10,
                       q_page = 4, q_sort = Some ''date'', q_direction = Some ''desc'',
                       q_star = None\<rparr> 0]"
proof -
  have ids: "appKey example_state = ''k''" "productId example_state = ''p1''"
    by (simp_all add: example_state_def initial_def appKey_def productId_def getAttribute_def)
  have url: "buildApiUrl example_state =
      \<lparr>url_app_key = ''k'', url_product_id = ''p1'', q_per_page = 10,
                       q_page = 1, q_sort = Some ''date'', q_direction = Some ''desc'',
                       q_star = None\<rparr>"
    by (simp add: buildApiUrl_def ids perPage_def) (simp add: example_state_def initial_def)
  have st: "network example_state = []" "next_controller example_state = 0"
    "scrolls example_state = 0"
    by (simp_all add: example_state_def initial_def)
  show ?thesis
    using goToPage_range [of 0 example_state] goToPage_range [of 5 example_state]
      goToPage_range [of 4 example_state]
    by (auto simp add: total_pages_example ids url st)
qed

subsection \<open>The voted set over a session\<close>

lemma votedReviews_fetchReviews_catch: "votedReviews (fetchReviews_catch error s) = votedReviews s"
  by (simp add: fetchReviews_catch_def renderError_def)

lemma votedReviews_after_fetch:
  "votedReviews (fetchReviews_after_fetch k v s) = votedReviews s"
  by (simp add: fetchReviews_after_fetch_def votedReviews_fetchReviews_catch unsuspend_def
        split: settled.splits)

lemma votedReviews_after_json:
  "votedReviews (fetchReviews_after_json k v s) = votedReviews s"
  by (simp add: fetchReviews_after_json_def votedReviews_fetchReviews_catch unsuspend_def
        apply_response_def render_def split: settled.splits option.splits)

lemma votedReviews_showFormMessage: "votedReviews (showFormMessage m type s) = votedReviews s"
  by (simp add: showFormMessage_def)

lemma votedReviews_submitReview: "votedReviews (submitReview target s) = votedReviews s"
  by (simp add: submitReview_def votedReviews_showFormMessage Let_def split: option.splits)

lemma votedReviews_submitReview_catch:
  "votedReviews (submitReview_catch submitBtn s) = votedReviews s"
  by (simp add: submitReview_catch_def votedReviews_showFormMessage Let_def)

lemma votedReviews_submitReview_after_fetch:
  "votedReviews (submitReview_after_fetch n v s) = votedReviews s"
  by (simp add: submitReview_after_fetch_def votedReviews_submitReview_catch
        votedReviews_showFormMessage Let_def split: settled.splits)

lemma votedReviews_goToPage: "votedReviews (goToPage page s) = votedReviews s"
  by (simp add: goToPage_def Let_def scrollIntoView_def fetchReviews_keeps)

lemma votedReviews_openImageModal:
  "votedReviews (openImageModal reviewId imageIndex s) = votedReviews s"
  by (simp add: openImageModal_def split: option.splits)

lemma votedReviews_voteHelpful:
  "set (votedReviews (voteHelpful reviewId v s)) = insert reviewId (set (votedReviews s))"
  by (auto simp add: voteHelpful_def Let_def Set_has_def Set_add_def render_def
        saveVotedReviews_def)

lemma votedReviews_fire: "set (votedReviews s) \<subseteq> set (votedReviews (fire e s))"
proof (cases e)
  case (VoteHelpful reviewId v)
  then show ?thesis by (auto simp add: votedReviews_voteHelpful)
next
  case (HandleSort target)
  then show ?thesis by (simp add: handleSort_def fetchReviews_keeps split: option.splits)
next
  case (FilterByStar star)
  then show ?thesis by (simp add: filterByStar_def fetchReviews_keeps)
qed (simp_all add: retryFetch_def toggleForm_def setFormRating_def clearStarFilter_def
      closeImageModal_def disconnectedCallback_def abort_current_def hide_form_timer_def
      render_def fetchReviews_keeps votedReviews_submitReview votedReviews_openImageModal
      votedReviews_goToPage votedReviews_after_fetch votedReviews_after_json
      votedReviews_submitReview_after_fetch split: option.splits)

lemma votedReviews_run: "set (votedReviews s) \<subseteq> set (votedReviews (run es s))"
proof (induction es arbitrary: s)
  case Nil
  show ?case by simp
next
  case (Cons e es)
  have "set (votedReviews s) \<subseteq> set (votedReviews (fire e s))" by (rule votedReviews_fire)
  also have "\<dots> \<subseteq> set (votedReviews (run es (fire e s)))" by (rule Cons.IH)
  finally show ?case by simp
qed

text \<open>
  C9 (the voted set never shrinks). Every event of a session (the handlers for
  fetching, sorting, filtering, paging, voting, submitting and the rest, each with the
  render it ends in, and every resumption of a suspended call) leaves the voted set
  as it is or adds to it, and so does any sequence of events. A review ID in the set
  stays in it, and \<open>voteHelpful\<close> on it returns early, after any sequence of events.
\<close>

theorem votedReviews_never_shrinks:
  "set (votedReviews s) \<subseteq> set (votedReviews (fire e s))
   \<and> set (votedReviews s) \<subseteq> set (votedReviews (run es s))
   \<and> (Set_has (votedReviews s) reviewId \<longrightarrow>
        Set_has (votedReviews (run es s)) reviewId
        \<and> voteHelpful reviewId v (run es s) = run es s)"
proof (intro conjI impI)
  show "set (votedReviews s) \<subseteq> set (votedReviews (fire e s))" by (rule votedReviews_fire)
  show "set (votedReviews s) \<subseteq> set (votedReviews (run es s))" by (rule votedReviews_run)
  assume "Set_has (votedReviews s) reviewId"
  then show has: "Set_has (votedReviews (run es s)) reviewId"
    using votedReviews_run [of s es] by (auto simp add: Set_has_def)
  then show "voteHelpful reviewId v (run es s) = run es s"
    by (simp add: voteHelpful_def)
qed

lemma example_vote:
  "voteHelpful 7 Up example_state =
      example_state\<lparr>votedReviews := [7], localStorage_item := Some (IdArray [7]),
        reviews := [example_review\<lparr>votes_up := Some 3\<rparr>],
        innerHTML := MainMarkup False False, modals := [],
        network := [VotePost 7 Up ''k'']\<rparr>"
  by (simp add: voteHelpful_def Let_def Set_has_def Set_add_def saveVotedReviews_def
        render_def example_state_def example_review_def initial_def or_zero_def
        appKey_def getAttribute_def)

theorem votedReviews_never_shrinks_witness:
  "Set_has (votedReviews (voteHelpful 7 Up example_state)) 7
   \<and> Set_has (votedReviews
        (run [FilterByStar 5, VoteHelpful 9 Down, GoToPage 2, ToggleForm,
              JsonSettles 0 (Rejected AbortError)]
           (voteHelpful 7 Up example_state))) 7
   \<and> voteHelpful 7 Down
        (run [FilterByStar 5, VoteHelpful 9 Down, GoToPage 2, ToggleForm,
              JsonSettles 0 (Rejected AbortError)]
           (voteHelpful 7 Up example_state))
       = run [FilterByStar 5, VoteHelpful 9 Down, GoToPage 2, ToggleForm,
              JsonSettles 0 (Rejected AbortError)]
           (voteHelpful 7 Up example_state)"
proof -
  have h: "Set_has (votedReviews (voteHelpful 7 Up example_state)) 7"
    by (simp add: example_vote Set_has_def)
  show ?thesis
    using h votedReviews_never_shrinks
      [where s = "voteHelpful 7 Up example_state" and reviewId = 7 and v = Down
         and es = "[FilterByStar 5, VoteHelpful 9 Down, GoToPage 2, ToggleForm,
              JsonSettles 0 (Rejected AbortError)]"]
    by blast
qed

subsection \<open>Overlapping listing requests\<close>

lemma last_listing_append [simp]:
  "last_listing (rs @ [ListingGet u k]) = Some k"
  "last_listing (rs @ [VotePost i v a]) = last_listing rs"
  "last_listing (rs @ [ReviewPost a p f]) = last_listing rs"
  by (induction rs rule: last_listing.induct) (simp_all split: option.splits)

lemma consistent_initial: "consistent (initial attrs item throws)"
  by (simp add: consistent_def initial_def)

lemma consistent_cong:
  assumes "consistent s"
    and "abortController t = abortController s" and "network t = network s"
    and "pending t = pending s" and "aborted t = aborted s"
    and "next_controller t = next_controller s"
  shows "consistent t"
  unfolding consistent_def assms(2-6) by (rule assms(1) [unfolded consistent_def])

lemma consistent_post:
  assumes "consistent s"
    and "abortController t = abortController s"
    and "network t = network s @ [r]" and "last_listing (network s @ [r]) = last_listing (network s)"
    and "pending t = pending s" and "aborted t = aborted s"
    and "next_controller t = next_controller s"
  shows "consistent t"
  unfolding consistent_def assms(2,3,5-7) assms(4) by (rule assms(1) [unfolded consistent_def])

lemma consistent_loadVotedReviews: "consistent s \<Longrightarrow> consistent (loadVotedReviews s)"
  by (erule consistent_cong) (simp_all add: loadVotedReviews_def split: option.splits stored.splits)

lemma consistentD:
  assumes "consistent s"
  shows "abortController s = last_listing (network s)"
    and "(k, p) \<in> set (pending s) \<Longrightarrow> abortController s = Some k \<or> k \<in> set (aborted s)"
    and "j \<in> set (aborted s) \<Longrightarrow> j < next_controller s"
    and "abortController s = Some c \<Longrightarrow> c < next_controller s"
  using assms by (auto simp add: consistent_def list_all_iff)

lemma consistentI:
  assumes "abortController s = last_listing (network s)"
    and "\<And>k p. (k, p) \<in> set (pending s) \<Longrightarrow> abortController s = Some k \<or> k \<in> set (aborted s)"
    and "\<And>j. j \<in> set (aborted s) \<Longrightarrow> j < next_controller s"
    and "\<And>c. abortController s = Some c \<Longrightarrow> c < next_controller s"
  shows "consistent s"
  unfolding consistent_def list_all_iff
proof (intro conjI ballI)
  show "abortController s = last_listing (network s)" by (rule assms(1))
next
  fix x assume "x \<in> set (pending s)"
  then have "(fst x, snd x) \<in> set (pending s)" by simp
  then have "abortController s = Some (fst x) \<or> fst x \<in> set (aborted s)" by (rule assms(2))
  then show "case x of (k, p) \<Rightarrow> abortController s = Some k \<or> k \<in> set (aborted s)"
    by (simp add: case_prod_beta)
next
  fix j assume "j \<in> set (aborted s)"
  then show "j < next_controller s" by (rule assms(3))
next
  show "case abortController s of None \<Rightarrow> True | Some c \<Rightarrow> c < next_controller s"
    using assms(4) by (simp split: option.splits)
qed

lemma fetchReviews_fields:
  assumes "appKey s \<noteq> []" and "productId s \<noteq> []"
  shows "abortController (fetchReviews s) = Some (next_controller s)"
    and "network (fetchReviews s) = network s @ [ListingGet (buildApiUrl s) (next_controller s)]"
    and "pending (fetchReviews s) = pending s @ [(next_controller s, AwaitFetch)]"
    and "set (aborted (fetchReviews s))
           = set (aborted s) \<union> (case abortController s of None \<Rightarrow> {} | Some c \<Rightarrow> {c})"
    and "next_controller (fetchReviews s) = Suc (next_controller s)"
  using assms
  by (auto simp add: fetchReviews_def Let_def render_def abort_current_def buildApiUrl_def
        appKey_def productId_def getAttribute_def split: option.splits)

lemma consistent_fetchReviews:
  assumes "consistent s"
  shows "consistent (fetchReviews s)"
proof (cases "appKey s = [] \<or> productId s = []")
  case True
  then have "fetchReviews s = renderError (Text ''Missing app-key or product-id attribute'') s"
    by (simp add: fetchReviews_def)
  then show ?thesis using assms
    by (elim ssubst consistent_cong) (simp_all add: renderError_def)
next
  case False
  then have ids: "appKey s \<noteq> []" "productId s \<noteq> []" by simp_all
  note f = fetchReviews_fields [OF ids]
  note d = consistentD [OF assms]
  show ?thesis
  proof (rule consistentI)
    show "abortController (fetchReviews s) = last_listing (network (fetchReviews s))"
      by (simp add: f)
  next
    fix k p assume "(k, p) \<in> set (pending (fetchReviews s))"
    then have "(k, p) \<in> set (pending s) \<or> k = next_controller s" by (auto simp add: f)
    then show "abortController (fetchReviews s) = Some k \<or> k \<in> set (aborted (fetchReviews s))"
      using d(2) [of k p] by (auto simp add: f)
  next
    fix j assume "j \<in> set (aborted (fetchReviews s))"
    then show "j < next_controller (fetchReviews s)"
      using d(3) [of j] d(4) by (auto simp add: f less_Suc_eq split: option.splits)
  next
    fix c assume "abortController (fetchReviews s) = Some c"
    then show "c < next_controller (fetchReviews s)" by (simp add: f)
  qed
qed

lemma consistent_fetchReviews_catch: "consistent s \<Longrightarrow> consistent (fetchReviews_catch e s)"
  by (erule consistent_cong) (simp_all add: fetchReviews_catch_def renderError_def)

lemma consistent_unsuspend: "consistent s \<Longrightarrow> consistent (unsuspend k s)"
  by (rule consistentI) (auto simp add: unsuspend_def dest: consistentD)

lemma consistent_after_fetch:
  assumes "consistent s" and "(k, AwaitFetch) \<in> set (pending s)"
  shows "consistent (fetchReviews_after_fetch k v s)"
proof -
  have u: "consistent (unsuspend k s)" using assms(1) by (rule consistent_unsuspend)
  have k: "abortController s = Some k \<or> k \<in> set (aborted s)"
    using assms by (rule consistentD(2))
  have again: "consistent ((unsuspend k s)\<lparr>pending := pending (unsuspend k s) @ [(k, AwaitJson)]\<rparr>)"
    using k consistentD [OF assms(1)]
    by (intro consistentI) (auto simp add: unsuspend_def)
  show ?thesis
    using u again
    by (simp add: fetchReviews_after_fetch_def consistent_fetchReviews_catch split: settled.splits)
qed

lemma consistent_apply_response: "consistent s \<Longrightarrow> consistent (apply_response d s)"
  by (erule consistent_cong) (simp_all add: apply_response_def render_def)

lemma consistent_after_json:
  assumes "consistent s"
  shows "consistent (fetchReviews_after_json k v s)"
  using consistent_unsuspend [OF assms, of k]
  by (simp add: fetchReviews_after_json_def consistent_fetchReviews_catch
        consistent_apply_response split: settled.splits option.splits)

lemma consistent_showFormMessage: "consistent s \<Longrightarrow> consistent (showFormMessage m t s)"
  by (erule consistent_cong) (simp_all add: showFormMessage_def)

lemma consistent_submitReview:
  assumes "consistent s"
  shows "consistent (submitReview target s)"
proof (cases target)
  case None
  then show ?thesis using assms by (simp add: submitReview_def)
next
  case (Some fd)
  show ?thesis
  proof (cases "fd_score fd = []")
    case True
    then show ?thesis using Some assms by (simp add: submitReview_def consistent_showFormMessage)
  next
    case False
    show ?thesis
      using assms
      by (rule consistent_post [where r = "ReviewPost (appKey s) (productId s) fd"])
         (simp_all add: submitReview_def Some False Let_def appKey_def productId_def
            getAttribute_def)
  qed
qed

lemma consistent_submitReview_catch:
  "consistent s \<Longrightarrow> consistent (submitReview_catch submitBtn s)"
  by (erule consistent_cong) (simp_all add: submitReview_catch_def showFormMessage_def Let_def)

lemma consistent_submitReview_after_fetch:
  "consistent s \<Longrightarrow> consistent (submitReview_after_fetch n v s)"
  by (erule consistent_cong)
     (simp_all add: submitReview_after_fetch_def submitReview_catch_def showFormMessage_def
        Let_def split: settled.splits)

lemma consistent_voteHelpful:
  assumes "consistent s"
  shows "consistent (voteHelpful i v s)"
proof (cases "Set_has (votedReviews s) i")
  case True
  then show ?thesis using assms by (simp add: voteHelpful_def)
next
  case False
  show ?thesis
    using assms
    by (rule consistent_post [where r = "VotePost i v (appKey s)"])
       (simp_all add: voteHelpful_def False Let_def render_def saveVotedReviews_def appKey_def
          getAttribute_def)
qed

lemma consistent_update:
  "consistent s \<Longrightarrow> consistent (s\<lparr>currentPage := p\<rparr>)"
  "consistent s \<Longrightarrow> consistent (s\<lparr>currentStarFilter := f\<rparr>)"
  "consistent s \<Longrightarrow> consistent (s\<lparr>currentSort := a\<rparr>)"
  "consistent s \<Longrightarrow> consistent (s\<lparr>currentDirection := d\<rparr>)"
  by (erule consistent_cong, simp_all)+

lemma consistent_goToPage: "consistent s \<Longrightarrow> consistent (goToPage p s)"
proof -
  assume c: "consistent s"
  have "consistent (fetchReviews (s\<lparr>currentPage := p\<rparr>))"
    by (intro consistent_fetchReviews consistent_update c)
  then have "consistent (scrollIntoView (fetchReviews (s\<lparr>currentPage := p\<rparr>)))"
    by (rule consistent_cong) (simp_all add: scrollIntoView_def)
  then show ?thesis using c by (simp add: goToPage_def Let_def)
qed

lemma consistent_handleSort: "consistent s \<Longrightarrow> consistent (handleSort target s)"
  by (cases target)
     (simp_all add: handleSort_def consistent_fetchReviews consistent_update)

lemma consistent_filterByStar: "consistent s \<Longrightarrow> consistent (filterByStar star s)"
  by (simp add: filterByStar_def consistent_fetchReviews consistent_update)

lemma consistent_clearStarFilter: "consistent s \<Longrightarrow> consistent (clearStarFilter s)"
  by (simp add: clearStarFilter_def consistent_fetchReviews consistent_update)

lemma consistent_openImageModal: "consistent s \<Longrightarrow> consistent (openImageModal i j s)"
  by (erule consistent_cong) (simp_all add: openImageModal_def split: option.splits)

lemma consistent_abort_current: "consistent s \<Longrightarrow> consistent (abort_current s)"
  by (rule consistentI)
     (auto simp add: abort_current_def split: option.splits if_splits dest: consistentD)

lemma consistent_fire: "consistent s \<Longrightarrow> consistent (fire e s)"
proof (cases e)
  case ToggleForm
  assume "consistent s" then show ?thesis unfolding ToggleForm
    by (rule consistent_cong) (simp_all add: toggleForm_def render_def)
next
  case (SetFormRating r)
  assume "consistent s" then show ?thesis unfolding SetFormRating
    by (rule consistent_cong) (simp_all add: setFormRating_def)
next
  case CloseImageModal
  assume "consistent s" then show ?thesis unfolding CloseImageModal
    by (rule consistent_cong) (simp_all add: closeImageModal_def)
next
  case TimerFires
  assume "consistent s" then show ?thesis unfolding TimerFires
    by (rule consistent_cong) (simp_all add: hide_form_timer_def render_def)
qed (simp_all add: retryFetch_def disconnectedCallback_def consistent_fetchReviews
      consistent_submitReview consistent_handleSort consistent_filterByStar
      consistent_clearStarFilter consistent_openImageModal consistent_voteHelpful
      consistent_goToPage consistent_abort_current consistent_after_fetch
      consistent_after_json consistent_submitReview_after_fetch)

lemma consistent_run: "consistent s \<Longrightarrow> consistent (run es s)"
  by (induction es arbitrary: s) (simp_all add: consistent_fire)

lemma consistent_session:
  "consistent (run es (connectedCallback (initial attrs item throws)))"
  by (simp add: consistent_run connectedCallback_def consistent_fetchReviews
        consistent_loadVotedReviews consistent_initial)

lemma catch_AbortError: "fetchReviews_catch AbortError s = s"
  by (simp add: fetchReviews_catch_def AbortError_def)

lemma superseded_fetch_discarded:
  assumes "consistent s" and "last_listing (network s) \<noteq> Some k"
  shows "(fire (FetchSettles k outcome) s)\<lparr>pending := pending s\<rparr> = s"
proof (cases "(k, AwaitFetch) \<in> set (pending s)")
  case False
  then show ?thesis by simp
next
  case True
  have "abortController s \<noteq> Some k" using assms by (simp add: consistentD(1))
  with consistentD(2) [OF assms(1) True] have "k \<in> set (aborted s)" by simp
  then have "settle s k outcome = Rejected AbortError" by (simp add: settle_def)
  then show ?thesis
    using True by (simp add: fetchReviews_after_fetch_def catch_AbortError unsuspend_def)
qed

lemma superseded_json_discarded:
  assumes "consistent s" and "last_listing (network s) \<noteq> Some k"
  shows "(fire (JsonSettles k outcome) s)\<lparr>pending := pending s\<rparr> = s"
proof (cases "(k, AwaitJson) \<in> set (pending s)")
  case False
  then show ?thesis by simp
next
  case True
  have "abortController s \<noteq> Some k" using assms by (simp add: consistentD(1))
  with consistentD(2) [OF assms(1) True] have "k \<in> set (aborted s)" by simp
  then have "settle s k outcome = Rejected AbortError" by (simp add: settle_def)
  then show ?thesis
    using True by (simp add: fetchReviews_after_json_def catch_AbortError unsuspend_def)
qed

lemma refetch_aborts_previous:
  assumes "consistent s" and "appKey s \<noteq> []" and "productId s \<noteq> []"
    and "last_listing (network s) = Some c"
  shows "c \<in> set (aborted (fetchReviews s))"
    and "last_listing (network (fetchReviews s)) = Some (next_controller s)"
    and "next_controller s \<noteq> c"
    and "next_controller s \<notin> set (aborted (fetchReviews s))"
proof -
  note f = fetchReviews_fields [OF assms(2,3)]
  have ctl: "abortController s = Some c" using assms(1,4) by (simp add: consistentD(1))
  show "c \<in> set (aborted (fetchReviews s))" by (simp add: f ctl)
  show "last_listing (network (fetchReviews s)) = Some (next_controller s)" by (simp add: f)
  have lt: "c < next_controller s" using assms(1) ctl by (rule consistentD(4))
  then show "next_controller s \<noteq> c" by simp
  show "next_controller s \<notin> set (aborted (fetchReviews s))"
    using consistentD(3) [OF assms(1), of "next_controller s"] lt by (auto simp add: f ctl)
qed

lemma latest_json_applied:
  assumes "(k, AwaitJson) \<in> set (pending s)" and "k \<notin> set (aborted s)"
    and "response_status d = None \<or> response_status d = Some 0 \<or> response_status d = Some 200"
  shows "bottomline (fire (JsonSettles k (Resolved d)) s) = response_bottomline d"
    and "reviews (fire (JsonSettles k (Resolved d)) s)
           = (case response_reviews d of None \<Rightarrow> [] | Some rs \<Rightarrow> rs)"
    and "pagination (fire (JsonSettles k (Resolved d)) s) = response_pagination d"
    and "\<not> isLoading (fire (JsonSettles k (Resolved d)) s)"
  using assms
  by (auto simp add: settle_def fetchReviews_after_json_def apply_response_def render_def
        unsuspend_def split: option.splits)

text \<open>
  C3 (only the latest response is applied). In every state of a session, whatever
  events led to it and in whatever order responses arrived: when the network answers
  for a listing request that is not the one issued last, at either \<open>await\<close>, nothing
  of the component changes (the invocation ends in the \<open>AbortError\<close> branch of the
  \<open>catch\<close> clause); a further \<open>#fetchReviews\<close> aborts the signal of the request
  issued last and issues a request with a fresh signal that is not aborted; and the
  payload of the request issued last, if its signal is not aborted, replaces the
  summary, the reviews and the pagination data.
\<close>

theorem only_latest_response_applied:
  assumes "s = run es (connectedCallback (initial attrs item throws))"
  shows "(last_listing (network s) \<noteq> Some k \<longrightarrow>
            (fire (FetchSettles k fetched) s)\<lparr>pending := pending s\<rparr> = s
            \<and> (fire (JsonSettles k parsed) s)\<lparr>pending := pending s\<rparr> = s)
         \<and> (appKey s \<noteq> [] \<and> productId s \<noteq> [] \<and> last_listing (network s) = Some c \<longrightarrow>
              c \<in> set (aborted (fetchReviews s))
              \<and> last_listing (network (fetchReviews s)) = Some (next_controller s)
              \<and> next_controller s \<noteq> c
              \<and> next_controller s \<notin> set (aborted (fetchReviews s)))
         \<and> (last_listing (network s) = Some k \<and> (k, AwaitJson) \<in> set (pending s)
              \<and> k \<notin> set (aborted s)
              \<and> (response_status d = None \<or> response_status d = Some 0
                    \<or> response_status d = Some 200) \<longrightarrow>
              bottomline (fire (JsonSettles k (Resolved d)) s) = response_bottomline d
              \<and> reviews (fire (JsonSettles k (Resolved d)) s)
                  = (case response_reviews d of None \<Rightarrow> [] | Some rs \<Rightarrow> rs)
              \<and> pagination (fire (JsonSettles k (Resolved d)) s) = response_pagination d)"
proof -
  have c: "consistent s" unfolding assms by (rule consistent_session)
  show ?thesis
    using superseded_fetch_discarded [OF c] superseded_json_discarded [OF c]
      refetch_aborts_previous [OF c] latest_json_applied [of k s d]
    by blast
qed

lemma example_session_fields:
  "network example_session =
     [ListingGet \<lparr>url_app_key = ''k'', url_product_id = ''p1'', q_per_page = 10,
                   q_page = 1, q_sort = Some ''date'', q_direction = Some ''desc'',
                   q_star = None\<rparr> 0,
      ListingGet \<lparr>url_app_key = ''k'', url_product_id = ''p1'', q_per_page = 10,
                   q_page = 1, q_sort = Some ''date'', q_direction = Some ''desc'',
                   q_star = Some 5\<rparr> 1]"
  "pending example_session = [(0, AwaitJson), (1, AwaitJson)]"
  "aborted example_session = [0]"
  "next_controller example_session = 2"
  "appKey example_session = ''k''"
  "productId example_session = ''p1''"
  "bottomline example_session = None"
  by (simp_all add: example_session_def example_attrs_def connectedCallback_def
        loadVotedReviews_def initial_def fetchReviews_def filterByStar_def Let_def
        render_def abort_current_def buildApiUrl_def appKey_def productId_def
        getAttribute_def perPage_def settle_def fetchReviews_after_fetch_def unsuspend_def)

theorem only_latest_response_applied_witness:
  "last_listing (network example_session) = Some 1
   \<and> (0, AwaitJson) \<in> set (pending example_session)
   \<and> (fire (JsonSettles 0 (Resolved (example_data 22))) example_session)
        \<lparr>pending := pending example_session\<rparr> = example_session
   \<and> bottomline (fire (JsonSettles 1 (Resolved (example_data 11))) example_session)
       = Some \<lparr>total_review = 11, average_score = 4, star_distribution = None\<rparr>
   \<and> pagination (fire (JsonSettles 1 (Resolved (example_data 11))) example_session)
       = Some \<lparr>pg_page = 1, pg_per_page = 10, pg_total = 11\<rparr>
   \<and> 1 \<in> set (aborted (fetchReviews example_session))
   \<and> last_listing (network (fetchReviews example_session)) = Some 2"
proof -
  have latest: "last_listing (network example_session) = Some 1"
    by (simp add: example_session_fields)
  have other: "last_listing (network example_session) \<noteq> Some 0"
    by (simp add: example_session_fields)
  have pend: "(0, AwaitJson) \<in> set (pending example_session)"
    "(1, AwaitJson) \<in> set (pending example_session)"
    "1 \<notin> set (aborted example_session)"
    by (simp_all add: example_session_fields)
  have ids: "appKey example_session \<noteq> []" "productId example_session \<noteq> []"
    by (simp_all add: example_session_fields)
  have ok: "response_status (example_data 11) = Some 200"
    by (simp add: example_data_def)
  note old = only_latest_response_applied
    [where s = example_session and k = 0 and c = 1 and d = "example_data 11"
       and parsed = "Resolved (example_data 22)", OF example_session_def]
  note new = only_latest_response_applied
    [where s = example_session and k = 1 and c = 1 and d = "example_data 11",
     OF example_session_def]
  have a: "(fire (JsonSettles 0 (Resolved (example_data 22))) example_session)
        \<lparr>pending := pending example_session\<rparr> = example_session"
    using old other by blast
  have "bottomline (fire (JsonSettles 1 (Resolved (example_data 11))) example_session)
          = response_bottomline (example_data 11)
        \<and> pagination (fire (JsonSettles 1 (Resolved (example_data 11))) example_session)
          = response_pagination (example_data 11)"
    using new latest pend ok by blast
  then have b: "bottomline (fire (JsonSettles 1 (Resolved (example_data 11))) example_session)
       = Some \<lparr>total_review = 11, average_score = 4, star_distribution = None\<rparr>"
    and c: "pagination (fire (JsonSettles 1 (Resolved (example_data 11))) example_session)
       = Some \<lparr>pg_page = 1, pg_per_page = 10, pg_total = 11\<rparr>"
    by (simp_all add: example_data_def)
  have "1 \<in> set (aborted (fetchReviews example_session))
        \<and> last_listing (network (fetchReviews example_session))
            = Some (next_controller example_session)"
    using new latest ids by blast
  then have d: "1 \<in> set (aborted (fetchReviews example_session))"
    and e: "last_listing (network (fetchReviews example_session)) = Some 2"
    by (simp_all add: example_session_fields)
  show ?thesis using latest pend(1) a b c d e by blast
qed

end
